theory Spec2Isabelle
  imports Complex_Main "HOL-Library.FSet" "HOL-Library.Product_Lexorder"
begin

section \<open>Common data\<close>

text \<open>
  Python strings are sequences of Unicode code points; \<open>len\<close> and slicing count code
  points.  A string is therefore a list of code points, and an ASCII literal is lifted
  with \<open>ascii\<close>.
\<close>

type_synonym pystr = "nat list"

definition ascii :: "string \<Rightarrow> pystr" where
  "ascii s = map of_char s"

datatype py_error =
    ValueError
  | IndexError
  | FileNotFoundError
  | AttributeError
  | TypeError
  | RuntimeError
  | NotFittedError
  | ZeroDivisionError
  | RequestError
  | ApiError pystr

section \<open>ingest.py\<close>

definition CHUNK_SIZE :: nat where
  "CHUNK_SIZE = 500"

text \<open>
  \<open>range(start, stop, step)\<close> for a positive step.  Python raises \<open>ValueError\<close> for a
  zero step; the caller below checks for it before the range is built.
\<close>

function py_range :: "nat \<Rightarrow> nat \<Rightarrow> nat \<Rightarrow> nat list" where
  "py_range i stop step =
     (if step = 0 \<or> stop \<le> i then [] else i # py_range (i + step) stop step)"
  by pat_completeness auto
termination
  by (relation "measure (\<lambda>(i, stop, step). stop - i)") auto

declare py_range.simps [simp del]

text \<open>
  \<open>chunk_text(text, max_length)\<close>:
  \<open>[text[i:i+max_length] for i in range(0, len(text), max_length)]\<close>.
  A slice that runs past the end is cut at the end, which is \<open>take\<close> after \<open>drop\<close>.
\<close>

definition chunk_text :: "'a list \<Rightarrow> nat \<Rightarrow> py_error + 'a list list" where
  "chunk_text text max_length =
     (if max_length = 0 then Inl ValueError
      else Inr (map (\<lambda>i. take max_length (drop i text))
                    (py_range 0 (length text) max_length)))"

text \<open>
  A crawled document, as \<open>scraper.py\<close> writes it to \<open>data/docs.json\<close> and as
  \<open>build_index\<close> reads it with \<open>doc.get(key, "")\<close>: a key that is missing reads as
  the empty string, so a missing key is represented by the empty string.
\<close>

record doc =
  url :: pystr
  title :: pystr
  content :: pystr

text \<open>The metadata dictionary that \<open>build_index\<close> appends for every chunk.\<close>

record meta =
  doc_id :: nat
  chunk_id :: nat
  meta_title :: pystr
  meta_url :: pystr
  text_excerpt :: pystr

text \<open>
  The three data files.  \<open>None\<close> is a file that does not exist.  The rows of the
  embedding matrix have an abstract type \<open>'v\<close>.
\<close>

record 'v files =
  docs_json :: "doc list option"
  embeddings_npy :: "'v list option"
  metadata_json :: "meta list option"

text \<open>
  The body of the inner loop of \<open>build_index\<close>: one chunk is appended to
  \<open>text_chunks\<close> and its metadata to \<open>metas\<close>, side by side.
\<close>

definition add_chunk ::
  "nat \<Rightarrow> doc \<Rightarrow> nat \<times> pystr \<Rightarrow> pystr list \<times> meta list \<Rightarrow> pystr list \<times> meta list" where
  "add_chunk idx d = (\<lambda>(cid, chunk) (text_chunks, metas).
     (text_chunks @ [chunk],
      metas @ [\<lparr>doc_id = idx, chunk_id = cid, meta_title = title d, meta_url = url d,
                text_excerpt = take 400 chunk\<rparr>]))"

text \<open>
  The outer loop \<open>for idx, doc in enumerate(docs)\<close>; a document with empty content
  is skipped (\<open>continue\<close>) and still consumes its index.
\<close>

fun index_docs ::
  "(nat \<times> doc) list \<Rightarrow> pystr list \<times> meta list \<Rightarrow> py_error + pystr list \<times> meta list" where
  "index_docs [] acc = Inr acc"
| "index_docs ((idx, d) # rest) acc =
     (if content d = [] then index_docs rest acc
      else (case chunk_text (content d) CHUNK_SIZE of
              Inl e \<Rightarrow> Inl e
            | Inr chunks \<Rightarrow> index_docs rest (fold (add_chunk idx d) (enumerate 0 chunks) acc)))"

text \<open>
  \<open>build_index()\<close>.  The sentence-embedding model is a library: \<open>encode\<close> is the
  embedding of one text, and encoding a batch yields one row per text, in order.  The
  function returns the new files together with \<open>(embeddings, metas)\<close>; a missing
  \<open>data/docs.json\<close> raises.
\<close>

definition build_index ::
  "(pystr \<Rightarrow> 'v) \<Rightarrow> 'v files \<Rightarrow> py_error + 'v files \<times> 'v list \<times> meta list" where
  "build_index encode fs =
     (case docs_json fs of
        None \<Rightarrow> Inl FileNotFoundError
      | Some docs \<Rightarrow>
          (case index_docs (enumerate 0 docs) ([], []) of
             Inl e \<Rightarrow> Inl e
           | Inr (text_chunks, metas) \<Rightarrow>
               (let embeddings = map encode text_chunks
                in Inr (fs\<lparr>embeddings_npy := Some embeddings, metadata_json := Some metas\<rparr>,
                        embeddings, metas))))"

section \<open>scraper.py\<close>

text \<open>
  The outside world of the crawler.  \<open>http_get url i\<close> is the outcome of the
  \<open>i\<close>-th request for \<open>url\<close> (the page text, or the exception of
  \<open>requests.get\<close>/\<open>raise_for_status\<close>).  The two functions that parse a page with
  BeautifulSoup are taken as they behave on a page of abstract type \<open>'h\<close>: each returns
  its value or raises.
\<close>

record 'h world =
  http_get :: "pystr \<Rightarrow> nat \<Rightarrow> py_error + 'h"
  extract_text_from_page :: "'h \<Rightarrow> pystr \<Rightarrow> py_error + pystr \<times> pystr"
  get_links :: "'h \<Rightarrow> pystr \<Rightarrow> py_error + pystr list"

text \<open>
  \<open>fetch(url, retries)\<close>: the loop \<open>for i in range(retries)\<close>, from attempt \<open>i\<close> on.
  The last failed attempt re-raises; falling out of the loop raises \<open>RuntimeError\<close>.
\<close>

function fetch_from ::
  "(pystr \<Rightarrow> nat \<Rightarrow> py_error + 'h) \<Rightarrow> pystr \<Rightarrow> nat \<Rightarrow> nat \<Rightarrow> py_error + 'h" where
  "fetch_from get u retries i =
     (if i < retries then
        (case get u i of
           Inr html \<Rightarrow> Inr html
         | Inl e \<Rightarrow> if int i = int retries - 1 then Inl e else fetch_from get u retries (Suc i))
      else Inl RuntimeError)"
  by pat_completeness auto
termination
  by (relation "measure (\<lambda>(get, u, retries, i). retries - i)") auto

declare fetch_from.simps [simp del]

definition fetch :: "(pystr \<Rightarrow> nat \<Rightarrow> py_error + 'h) \<Rightarrow> pystr \<Rightarrow> py_error + 'h" where
  "fetch get u = fetch_from get u 3 0"

text \<open>
  The variables of the crawl loop.  \<open>fetched\<close> is not a variable of the program: it
  records, in order, the URLs that \<open>fetch\<close> was called with.
\<close>

record crawl =
  to_visit :: "pystr list"
  visited :: "pystr fset"
  docs :: "doc list"
  fetched :: "pystr list"

text \<open>
  \<open>for l in links: if l not in visited and l not in to_visit: to_visit.append(l)\<close>
\<close>

definition enqueue :: "pystr fset \<Rightarrow> pystr list \<Rightarrow> pystr list \<Rightarrow> pystr list" where
  "enqueue vis links frontier =
     fold (\<lambda>l tv. if l |\<notin>| vis \<and> l \<notin> set tv then tv @ [l] else tv) links frontier"

text \<open>
  One iteration of the \<open>while\<close> loop of \<open>scrape\<close>.  The loop condition guarantees a
  non-empty frontier, so \<open>pop(0)\<close> succeeds.
\<close>

definition crawl_step :: "'h world \<Rightarrow> pystr \<Rightarrow> crawl \<Rightarrow> crawl" where
  "crawl_step w start_url st =
     (case to_visit st of
        [] \<Rightarrow> st
      | u # rest \<Rightarrow>
          if u |\<in>| visited st then st\<lparr>to_visit := rest\<rparr>
          else
            (case fetch (http_get w) u of
               Inl e \<Rightarrow>
                 st\<lparr>to_visit := rest, visited := finsert u (visited st),
                    fetched := fetched st @ [u]\<rparr>
             | Inr html \<Rightarrow>
                 (let docs' = (case extract_text_from_page w html u of
                                 Inr (t, c) \<Rightarrow> docs st @ [\<lparr>url = u, title = t, content = c\<rparr>]
                               | Inl e \<Rightarrow> docs st);
                      visited' = finsert u (visited st);
                      to_visit' = (case get_links w html start_url of
                                     Inr links \<Rightarrow> enqueue visited' links rest
                                   | Inl e \<Rightarrow> rest)
                  in st\<lparr>to_visit := to_visit', visited := visited', docs := docs',
                        fetched := fetched st @ [u]\<rparr>)))"

definition crawl_cond :: "int \<Rightarrow> crawl \<Rightarrow> bool" where
  "crawl_cond max_pages st \<longleftrightarrow> to_visit st \<noteq> [] \<and> int (fcard (visited st)) < max_pages"

text \<open>\<open>while to_visit and len(visited) < max_pages: ...\<close>\<close>

function crawl_loop :: "'h world \<Rightarrow> pystr \<Rightarrow> int \<Rightarrow> crawl \<Rightarrow> crawl" where
  "crawl_loop w start_url max_pages st =
     (if crawl_cond max_pages st
      then crawl_loop w start_url max_pages (crawl_step w start_url st)
      else st)"
  by pat_completeness auto



lemma crawl_step_visited:
  "to_visit st = u # rest \<Longrightarrow> u |\<notin>| visited st \<Longrightarrow>
   visited (crawl_step w start_url st) = finsert u (visited st)"
  by (simp add: crawl_step_def Let_def split: sum.split)

lemma crawl_step_skip:
  "to_visit st = u # rest \<Longrightarrow> u |\<in>| visited st \<Longrightarrow>
   crawl_step w start_url st = st\<lparr>to_visit := rest\<rparr>"
  by (simp add: crawl_step_def)

lemma crawl_step_decreases:
  assumes "crawl_cond max_pages st"
  shows "(crawl_step w start_url st, st)
         \<in> measures [\<lambda>s. nat (max_pages - int (fcard (visited s))), \<lambda>s. length (to_visit s)]"
proof -
  from assms obtain u rest where tv: "to_visit st = u # rest"
    by (cases "to_visit st") (auto simp: crawl_cond_def)
  from assms have lt: "int (fcard (visited st)) < max_pages"
    by (simp add: crawl_cond_def)
  show ?thesis
  proof (cases "u |\<in>| visited st")
    case True
    then show ?thesis
      using tv by (simp add: crawl_step_skip)
  next
    case False
    then have "fcard (visited (crawl_step w start_url st)) = Suc (fcard (visited st))"
      using tv by (simp add: crawl_step_visited fcard_finsert_disjoint)
    then show ?thesis
      using lt by simp
  qed
qed

termination crawl_loop
proof (relation "measures [\<lambda>(w, start_url, max_pages, st). nat (max_pages - int (fcard (visited st))),
                            \<lambda>(w, start_url, max_pages, st). length (to_visit st)]")
  show "wf (measures [\<lambda>(w :: 'h world, start_url :: pystr, max_pages, st).
                         nat (max_pages - int (fcard (visited st))),
                      \<lambda>(w, start_url, max_pages, st). length (to_visit st)])"
    by simp
next
  fix w :: "'h world" and start_url :: pystr and max_pages :: int and st :: crawl
  assume "crawl_cond max_pages st"
  from crawl_step_decreases [OF this, of w start_url]
  show "((w, start_url, max_pages, crawl_step w start_url st), (w, start_url, max_pages, st))
        \<in> measures [\<lambda>(w, start_url, max_pages, st). nat (max_pages - int (fcard (visited st))),
                      \<lambda>(w, start_url, max_pages, st). length (to_visit st)]"
    by simp
qed

declare crawl_loop.simps [simp del]

text \<open>
  \<open>scrape(start_url, out_path, max_pages)\<close>: the variables before the loop, the state
  the loop leaves, and the returned list \<open>docs\<close>, which is also what is written to
  \<open>out_path\<close>.
\<close>

definition crawl_init :: "pystr \<Rightarrow> crawl" where
  "crawl_init start_url = \<lparr>to_visit = [start_url], visited = {||}, docs = [], fetched = []\<rparr>"

definition scrape_run :: "'h world \<Rightarrow> pystr \<Rightarrow> int \<Rightarrow> crawl" where
  "scrape_run w start_url max_pages = crawl_loop w start_url max_pages (crawl_init start_url)"

definition scrape :: "'h world \<Rightarrow> pystr \<Rightarrow> int \<Rightarrow> doc list" where
  "scrape w start_url max_pages = docs (scrape_run w start_url max_pages)"


section \<open>rag.py\<close>

text \<open>
  The module's global variables.  \<open>nn\<close> is \<open>None\<close> until \<open>load_index\<close> creates the
  \<open>NearestNeighbors\<close> object, which is unfitted until \<open>fit\<close> has succeeded; a fitted
  brute-force index is the matrix it was fitted on.
\<close>

datatype 'v nn_index = Unfitted | Fitted "'v list"

record 'v rag =
  embeddings :: "'v list option"
  metas :: "meta list option"
  nn :: "'v nn_index option"

text \<open>The values of the globals when the module has been imported.\<close>

definition rag_init :: "'v rag" where
  "rag_init = \<lparr>embeddings = None, metas = None, nn = None\<rparr>"

record result =
  meta :: meta
  similarity :: real

record citation =
  cite_title :: pystr
  cite_url :: pystr
  cite_similarity :: real

record response =
  answer :: pystr
  citations :: "citation list"
  confidence :: real

text \<open>
  What \<open>rag.py\<close> and \<open>app.py\<close> take from libraries and from the environment: the
  sentence-embedding model (\<open>encode\<close>), the metric \<open>"cosine"\<close> of scikit-learn, the
  order in which the neighbour search of scikit-learn puts rows at equal distance
  (\<open>tie_rank\<close>, a rank of the row indices for a query and a matrix), the
  float format \<open>:.4f\<close>, the chat-completion client (\<open>None\<close> without an API key; given
  the system and the user message it returns the message content or raises), and
  \<open>str(e)\<close> of an exception.  Floating-point numbers are read as real numbers.
\<close>

record 'v libs =
  encode :: "pystr \<Rightarrow> 'v"
  cosine :: "'v \<Rightarrow> 'v \<Rightarrow> real"
  tie_rank :: "'v \<Rightarrow> 'v list \<Rightarrow> nat \<Rightarrow> nat"
  format_4f :: "real \<Rightarrow> pystr"
  openai_client :: "(pystr \<Rightarrow> pystr \<Rightarrow> py_error + pystr) option"
  str_of_error :: "py_error \<Rightarrow> pystr"

text \<open>\<open>NearestNeighbors.fit\<close> rejects a matrix without rows.\<close>

definition fit :: "'v list \<Rightarrow> py_error + 'v nn_index" where
  "fit X = (if X = [] then Inl ValueError else Inr (Fitted X))"

text \<open>
  \<open>NearestNeighbors.kneighbors(q, n_neighbors)\<close> of scikit-learn, brute force: the
  distances of the query to all fitted rows, the \<open>n_neighbors\<close> smallest in
  increasing order, as pairs of distance and row index (the source zips the two
  arrays).  It raises \<open>ValueError\<close> when \<open>n_neighbors\<close> is not positive or exceeds
  the number of fitted rows, and \<open>NotFittedError\<close> before \<open>fit\<close>.  The library does
  not fix the order of rows at equal distance: the row indices are sorted by distance
  and, at equal distance, by the rank \<open>tie\<close>, which may be any function.
\<close>

definition kneighbors ::
  "('v \<Rightarrow> 'v \<Rightarrow> real) \<Rightarrow> ('v \<Rightarrow> 'v list \<Rightarrow> nat \<Rightarrow> nat) \<Rightarrow> 'v nn_index \<Rightarrow> 'v \<Rightarrow> nat
   \<Rightarrow> py_error + (real \<times> nat) list" where
  "kneighbors metric tie index q n_neighbors =
     (case index of
        Unfitted \<Rightarrow> Inl NotFittedError
      | Fitted X \<Rightarrow>
          if n_neighbors = 0 then Inl ValueError
          else if length X < n_neighbors then Inl ValueError
          else Inr (take n_neighbors
                      (map (\<lambda>i. (metric q (X ! i), i))
                         (sort_key (\<lambda>i. (metric q (X ! i), tie q X i)) [0..<length X]))))"

definition load_index :: "'v files \<Rightarrow> 'v rag \<Rightarrow> 'v rag \<times> (py_error + 'v nn_index)" where
  "load_index fs st =
     (case (case embeddings st of
              Some e \<Rightarrow> Inr (e, st)
            | None \<Rightarrow> (case embeddings_npy fs of
                          None \<Rightarrow> Inl FileNotFoundError
                        | Some e \<Rightarrow> Inr (e, st\<lparr>embeddings := Some e\<rparr>))) of
        Inl err \<Rightarrow> (st, Inl err)
      | Inr (e, st1) \<Rightarrow>
          (case (case metas st1 of
                   Some m \<Rightarrow> Inr st1
                 | None \<Rightarrow> (case metadata_json fs of
                               None \<Rightarrow> Inl FileNotFoundError
                             | Some m \<Rightarrow> Inr (st1\<lparr>metas := Some m\<rparr>))) of
             Inl err \<Rightarrow> (st1, Inl err)
           | Inr st2 \<Rightarrow>
               (case fit e of
                  Inl err \<Rightarrow> (st2\<lparr>nn := Some Unfitted\<rparr>, Inl err)
                | Inr index \<Rightarrow> (st2\<lparr>nn := Some index\<rparr>, Inr index))))"

text \<open>
  The loop \<open>for d, idx in zip(distances[0], idxs[0])\<close> of \<open>retrieve\<close>; \<open>metas[idx]\<close>
  raises \<open>IndexError\<close> out of range.
\<close>

fun collect_results :: "meta list \<Rightarrow> (real \<times> nat) list \<Rightarrow> result list \<Rightarrow> py_error + result list" where
  "collect_results ms [] results = Inr results"
| "collect_results ms ((d, idx) # rest) results =
     (if idx < length ms
      then collect_results ms rest (results @ [\<lparr>meta = ms ! idx, similarity = 1 - d\<rparr>])
      else Inl IndexError)"

definition retrieve ::
  "'v libs \<Rightarrow> 'v files \<Rightarrow> 'v rag \<Rightarrow> pystr \<Rightarrow> nat \<Rightarrow> 'v rag \<times> (py_error + result list)" where
  "retrieve lib fs st query top_k =
     (case (case nn st of Some index \<Rightarrow> (st, Inr index) | None \<Rightarrow> load_index fs st) of
        (st1, Inl err) \<Rightarrow> (st1, Inl err)
      | (st1, Inr index) \<Rightarrow>
          (let q_emb = encode lib query in
           case kneighbors (cosine lib) (tie_rank lib) index q_emb top_k of
             Inl err \<Rightarrow> (st1, Inl err)
           | Inr neighbours \<Rightarrow>
               (case metas st1 of
                  None \<Rightarrow> (st1, if neighbours = [] then Inr [] else Inl TypeError)
                | Some ms \<Rightarrow> (st1, collect_results ms neighbours []))))"

definition PROMPT_TEMPLATE_head :: pystr where
  "PROMPT_TEMPLATE_head = ascii ''\<newline>You are an assistant that extracts accurate information ONLY from Freshservice API documentation.\<newline>\<newline>Task:\<newline>- Answer the user'' @ [8217] @ ascii ''s question using ONLY the provided documentation snippets.\<newline>- ALWAYS give the output in the following format:\<newline>\<newline>---\<newline>curl command:\<newline><the full working curl command here>\<newline>\<newline>Explanation:\<newline><step by step explanation of each parameter, header, and endpoint>\<newline>\<newline>Sources:\<newline>- Title: <doc title>, URL: <doc url>\<newline>- Title: <doc title>, URL: <doc url>\<newline>\<newline>Confidence: <float between 0 and 1>\<newline>---\<newline>\<newline>Documentation snippets:\<newline>''"

definition PROMPT_TEMPLATE_mid :: pystr where
  "PROMPT_TEMPLATE_mid = ascii ''\<newline>\<newline>User Question:\<newline>''"

definition PROMPT_TEMPLATE_tail :: pystr where
  "PROMPT_TEMPLATE_tail = ascii ''\<newline>''"

definition SYSTEM_CONTENT :: pystr where
  "SYSTEM_CONTENT = ascii ''You are a strict assistant that answers only from the provided docs and must follow the response format.''"

text \<open>The fallback prefix; its first two code points are the warning sign.\<close>

definition WARNING_PREFIX :: pystr where
  "WARNING_PREFIX = [9888] @ [65039] @ ascii '' OpenAI API key not found. Here are the retrieved snippets:\<newline>\<newline>''"

text \<open>\<open>str.isspace\<close> for one code point, and \<open>str.strip()\<close>.\<close>

definition isspace :: "nat \<Rightarrow> bool" where
  "isspace c \<longleftrightarrow>
     c \<in> set [9, 10, 11, 12, 13, 28, 29, 30, 31, 32, 133, 160, 5760, 8232, 8233, 8239, 8287, 12288]
     \<or> (8192 \<le> c \<and> c \<le> 8202)"

definition strip :: "pystr \<Rightarrow> pystr" where
  "strip s = rev (dropWhile isspace (rev (dropWhile isspace s)))"

text \<open>\<open>sep.join(xs)\<close>\<close>

fun join :: "pystr \<Rightarrow> pystr list \<Rightarrow> pystr" where
  "join sep [] = []"
| "join sep [x] = x"
| "join sep (x # y # ys) = x @ sep @ join sep (y # ys)"

text \<open>Python's \<open>/\<close> raises on a zero divisor.\<close>

definition py_truediv :: "real \<Rightarrow> real \<Rightarrow> py_error + real" where
  "py_truediv a b = (if b = 0 then Inl ZeroDivisionError else Inr (a / b))"

definition format_snippet :: "'v libs \<Rightarrow> result \<Rightarrow> pystr" where
  "format_snippet lib r =
     (let m = meta r
      in ascii ''---\<newline>Title: '' @ meta_title m
         @ ascii ''\<newline>URL: '' @ meta_url m
         @ ascii ''\<newline>Excerpt: '' @ text_excerpt m
         @ ascii ''\<newline>Similarity: '' @ format_4f lib (similarity r))"

text \<open>
  \<open>answer_query\<close> from line 105 on, that is, once \<open>retrieve\<close> has returned
  \<open>results\<close>.
\<close>

definition answer_results :: "'v libs \<Rightarrow> pystr \<Rightarrow> result list \<Rightarrow> py_error + response" where
  "answer_results lib question results =
     (let snippets = map (format_snippet lib) results;
          ctxt = join (ascii ''\<newline>\<newline>'') snippets;
          prompt = PROMPT_TEMPLATE_head @ ctxt @ PROMPT_TEMPLATE_mid @ question
                   @ PROMPT_TEMPLATE_tail
      in case (case openai_client lib of
                 Some create \<Rightarrow>
                   (case create SYSTEM_CONTENT prompt of
                      Inl err \<Rightarrow> Inl err
                    | Inr msg \<Rightarrow> Inr (strip msg))
               | None \<Rightarrow> Inr (WARNING_PREFIX @ ctxt)) of
           Inl err \<Rightarrow> Inl err
         | Inr content' \<Rightarrow>
             (case py_truediv (sum_list (map similarity results))
                              (real (max 1 (length results))) of
                Inl err \<Rightarrow> Inl err
              | Inr avg_sim \<Rightarrow>
                  Inr \<lparr>answer = content',
                       citations = map (\<lambda>r. \<lparr>cite_title = meta_title (meta r),
                                                cite_url = meta_url (meta r),
                                                cite_similarity = similarity r\<rparr>) results,
                       confidence = avg_sim\<rparr>))"

definition answer_query ::
  "'v libs \<Rightarrow> 'v files \<Rightarrow> 'v rag \<Rightarrow> pystr \<Rightarrow> nat \<Rightarrow> 'v rag \<times> (py_error + response)" where
  "answer_query lib fs st question top_k =
     (case retrieve lib fs st question top_k of
        (st1, Inl err) \<Rightarrow> (st1, Inl err)
      | (st1, Inr results) \<Rightarrow> (st1, answer_results lib question results))"

section \<open>app.py\<close>

text \<open>
  The value under the key \<open>"question"\<close> of the posted JSON object: a string, or any
  other JSON value.  The state of the application is the state of \<open>rag\<close>;
  \<open>answer_calls\<close> is not a variable of the program: it records the arguments of every
  call of \<open>answer_query\<close>, the only way from \<open>ask\<close> to \<open>retrieve\<close>.
\<close>

datatype json_value = JString pystr | JOther

datatype http_body = ErrorBody pystr | AnswerBody response

record 'v app =
  rag_state :: "'v rag"
  answer_calls :: "(pystr \<times> nat) list"

text \<open>
  \<open>ask()\<close>, for a request whose body is a JSON object; the argument is
  \<open>data.get("question")\<close>, \<open>None\<close> when the key is absent.  \<open>.strip()\<close> on a value
  that is not a string raises outside the \<open>try\<close>.
\<close>

definition ask ::
  "'v libs \<Rightarrow> 'v files \<Rightarrow> 'v app \<Rightarrow> json_value option \<Rightarrow> 'v app \<times> (py_error + http_body \<times> nat)" where
  "ask lib fs st question_field =
     (case (case question_field of None \<Rightarrow> JString [] | Some v \<Rightarrow> v) of
        JOther \<Rightarrow> (st, Inl AttributeError)
      | JString s \<Rightarrow>
          (let q = strip s
           in if q = [] then (st, Inr (ErrorBody (ascii ''empty question''), 400))
              else
                (case answer_query lib fs (rag_state st) q 4 of
                   (r, Inl e) \<Rightarrow>
                     (\<lparr>rag_state = r, answer_calls = answer_calls st @ [(q, 4)]\<rparr>,
                      Inr (ErrorBody (str_of_error lib e), 500))
                 | (r, Inr resp) \<Rightarrow>
                     (\<lparr>rag_state = r, answer_calls = answer_calls st @ [(q, 4)]\<rparr>,
                      Inr (AnswerBody resp, 200)))))"


section \<open>Chunking\<close>

lemma py_range_stop: "stop \<le> i \<Longrightarrow> py_range i stop step = []"
  by (simp add: py_range.simps)

lemma py_range_step:
  "0 < step \<Longrightarrow> i < stop \<Longrightarrow> py_range i stop step = i # py_range (i + step) stop step"
  by (subst py_range.simps) simp

lemma take_drop_step: "take L (drop i text) @ drop (i + L) text = drop i text"
proof -
  have "take L (drop i text) @ drop L (drop i text) = drop i text"
    by (rule append_take_drop_id)
  then show ?thesis
    by (simp add: add.commute)
qed

lemma concat_slices:
  "0 < L \<Longrightarrow> n = length text \<Longrightarrow>
   concat (map (\<lambda>i. take L (drop i text)) (py_range i n L)) = drop i text"
proof (induction i n L rule: py_range.induct)
  case (1 i stop step)
  show ?case
  proof (cases "i < stop")
    case True
    have "concat (map (\<lambda>i. take step (drop i text)) (py_range i stop step))
          = take step (drop i text)
            @ concat (map (\<lambda>i. take step (drop i text)) (py_range (i + step) stop step))"
      using 1(2) True by (simp only: py_range_step list.map concat.simps)
    also have "\<dots> = take step (drop i text) @ drop (i + step) text"
      using 1 True by simp
    finally show ?thesis
      by (simp only: take_drop_step)
  next
    case False
    then show ?thesis
      using 1(3) by (simp add: py_range_stop)
  qed
qed

lemma butlast_slices_full:
  "0 < L \<Longrightarrow> n = length text \<Longrightarrow>
   c \<in> set (butlast (map (\<lambda>i. take L (drop i text)) (py_range i n L))) \<Longrightarrow>
   length c = L"
proof (induction i n L arbitrary: c rule: py_range.induct)
  case (1 i stop step)
  show ?case
  proof (cases "i < stop")
    case True
    note lt = True
    have unf: "py_range i stop step = i # py_range (i + step) stop step"
      using 1(2) lt by (rule py_range_step)
    show ?thesis
    proof (cases "i + step < stop")
      case True
      have ne: "py_range (i + step) stop step \<noteq> []"
        using py_range_step [OF 1(2) True] by simp
      from 1(4) have "c = take step (drop i text)
          \<or> c \<in> set (butlast (map (\<lambda>i. take step (drop i text)) (py_range (i + step) stop step)))"
        by (simp add: unf ne)
      then show ?thesis
      proof
        assume "c = take step (drop i text)"
        then show ?thesis
          using True 1(3) by simp
      next
        assume "c \<in> set (butlast (map (\<lambda>i. take step (drop i text)) (py_range (i + step) stop step)))"
        then show ?thesis
          using 1(1) [of c] 1(2) 1(3) lt by simp
      qed
    next
      case False
      then have "py_range (i + step) stop step = []"
        by (simp add: py_range_stop)
      with 1(4) show ?thesis
        by (simp add: unf)
    qed
  next
    case False
    then have "py_range i stop step = []"
      by (simp add: py_range_stop)
    with 1(4) show ?thesis
      by simp
  qed
qed

text \<open>
  C2.  With the default maximum length 500, \<open>chunk_text\<close> returns a list of chunks whose
  concatenation is the text, so that the chunk lengths add up to the length of the
  text; no chunk is longer than 500, and every chunk but the last has length exactly
  500.
\<close>

theorem chunk_text_partition:
  "\<exists>cs. chunk_text text CHUNK_SIZE = Inr cs \<and> concat cs = text
        \<and> sum_list (map length cs) = length text
        \<and> (\<forall>c \<in> set cs. length c \<le> CHUNK_SIZE)
        \<and> (\<forall>c \<in> set (butlast cs). length c = CHUNK_SIZE)"
proof -
  let ?cs = "map (\<lambda>i. take CHUNK_SIZE (drop i text)) (py_range 0 (length text) CHUNK_SIZE)"
  have pos: "0 < CHUNK_SIZE"
    by (simp add: CHUNK_SIZE_def)
  have r: "chunk_text text CHUNK_SIZE = Inr ?cs"
    using pos by (simp add: chunk_text_def)
  have c: "concat ?cs = text"
    using concat_slices [OF pos refl, where i = 0] by simp
  have s: "sum_list (map length ?cs) = length text"
    using c by (metis length_concat)
  have le: "\<forall>c \<in> set ?cs. length c \<le> CHUNK_SIZE"
    by auto
  have full: "\<forall>c \<in> set (butlast ?cs). length c = CHUNK_SIZE"
    using butlast_slices_full [OF pos refl] by blast
  from r c s le full show ?thesis
    by blast
qed

theorem chunk_text_partition_witness:
  "chunk_text (replicate 1001 (120::nat)) CHUNK_SIZE
     = Inr [replicate 500 120, replicate 500 120, [120]]
   \<and> concat [replicate 500 120, replicate 500 120, [120]] = replicate 1001 (120::nat)"
proof -
  have r: "py_range 0 1001 500 = [0, 500, 1000]"
    by (simp add: py_range_step py_range_stop)
  have e: "chunk_text (replicate 1001 (120::nat)) CHUNK_SIZE
           = Inr [replicate 500 120, replicate 500 120, [120]]"
    by (simp add: chunk_text_def CHUNK_SIZE_def r)
  from chunk_text_partition [of "replicate 1001 (120::nat)"] e show ?thesis
    by auto
qed

section \<open>Alignment of metadata and embeddings\<close>

text \<open>
  \<open>describes ds chunk m\<close>: the metadata entry \<open>m\<close> is the one of \<open>chunk\<close> among the
  documents \<open>ds\<close>.
\<close>

definition describes :: "doc list \<Rightarrow> pystr \<Rightarrow> meta \<Rightarrow> bool" where
  "describes ds chunk m \<longleftrightarrow>
     doc_id m < length ds
     \<and> (case chunk_text (content (ds ! doc_id m)) CHUNK_SIZE of
          Inl e \<Rightarrow> False
        | Inr chunks \<Rightarrow> chunk_id m < length chunks \<and> chunks ! chunk_id m = chunk)
     \<and> meta_title m = title (ds ! doc_id m)
     \<and> meta_url m = url (ds ! doc_id m)
     \<and> text_excerpt m = take 400 chunk"

lemma fold_add_chunk:
  "fold (add_chunk idx d) ps (tc, ms)
   = (tc @ map snd ps,
      ms @ map (\<lambda>(cid, chunk). \<lparr>doc_id = idx, chunk_id = cid, meta_title = title d,
                                  meta_url = url d, text_excerpt = take 400 chunk\<rparr>) ps)"
  by (induction ps arbitrary: tc ms) (auto simp: add_chunk_def)

lemma describes_new_chunks:
  assumes "idx < length ds" and "chunk_text (content (ds ! idx)) CHUNK_SIZE = Inr chunks"
  shows "list_all2 (describes ds) chunks
           (map (\<lambda>(cid, chunk). \<lparr>doc_id = idx, chunk_id = cid, meta_title = title (ds ! idx),
                                    meta_url = url (ds ! idx), text_excerpt = take 400 chunk\<rparr>)
                (enumerate 0 chunks))"
  using assms by (simp add: list_all2_conv_all_nth nth_enumerate_eq describes_def)

lemma index_docs_describes:
  "index_docs ps acc = Inr acc' \<Longrightarrow>
   list_all2 (describes ds) (fst acc) (snd acc) \<Longrightarrow>
   \<forall>p \<in> set ps. fst p < length ds \<and> ds ! fst p = snd p \<Longrightarrow>
   list_all2 (describes ds) (fst acc') (snd acc')"
proof (induction ps acc arbitrary: acc' rule: index_docs.induct)
  case (1 acc)
  then show ?case by simp
next
  case (2 idx d rest acc)
  obtain tc ms where acc: "acc = (tc, ms)"
    by (cases acc)
  from "2.prems"(3) have idx: "idx < length ds" and d: "ds ! idx = d"
    and rest: "\<forall>p \<in> set rest. fst p < length ds \<and> ds ! fst p = snd p"
    by simp_all
  show ?case
  proof (cases "content d = []")
    case True
    with "2.prems"(1) have "index_docs rest acc = Inr acc'"
      by simp
    from "2.IH"(1) [OF True this "2.prems"(2) rest] show ?thesis .
  next
    case False
    with "2.prems"(1) obtain chunks where ch: "chunk_text (content d) CHUNK_SIZE = Inr chunks"
      and run: "index_docs rest (fold (add_chunk idx d) (enumerate 0 chunks) acc) = Inr acc'"
      by (auto split: sum.splits)
    have "list_all2 (describes ds)
            (fst (fold (add_chunk idx d) (enumerate 0 chunks) acc))
            (snd (fold (add_chunk idx d) (enumerate 0 chunks) acc))"
      using "2.prems"(2) describes_new_chunks [OF idx, of chunks] ch d
      by (simp add: acc fold_add_chunk list_all2_appendI)
    from "2.IH"(2) [OF False ch run this rest] show ?thesis .
  qed
qed

lemma enumerate_docs_index:
  "\<forall>p \<in> set (enumerate 0 ds). fst p < length ds \<and> ds ! fst p = snd p"
  by (auto simp: in_set_enumerate_eq)

definition example_files :: "nat files" where
  "example_files =
     \<lparr>docs_json = Some [\<lparr>url = [12], title = [2], content = [7, 8]\<rparr>,
                        \<lparr>url = [3], title = [4], content = []\<rparr>,
                        \<lparr>url = [5], title = [6], content = [9]\<rparr>],
      embeddings_npy = None, metadata_json = None\<rparr>"

lemma build_index_example:
  "build_index length example_files
   = Inr (example_files
            \<lparr>embeddings_npy := Some [2, 1],
             metadata_json := Some
               [\<lparr>doc_id = 0, chunk_id = 0, meta_title = [2], meta_url = [12], text_excerpt = [7, 8]\<rparr>,
                \<lparr>doc_id = 2, chunk_id = 0, meta_title = [6], meta_url = [5], text_excerpt = [9]\<rparr>]\<rparr>,
          [2, 1],
          [\<lparr>doc_id = 0, chunk_id = 0, meta_title = [2], meta_url = [12], text_excerpt = [7, 8]\<rparr>,
           \<lparr>doc_id = 2, chunk_id = 0, meta_title = [6], meta_url = [5], text_excerpt = [9]\<rparr>])"
proof -
  have r2: "py_range 0 (Suc (Suc 0)) 500 = [0]" and r1: "py_range 0 (Suc 0) 500 = [0]"
    by (simp_all add: py_range_step py_range_stop)
  show ?thesis
    by (simp add: build_index_def example_files_def chunk_text_def CHUNK_SIZE_def r1 r2
        add_chunk_def Let_def numeral_2_eq_2)
qed

text \<open>
  C1.  After a run of \<open>build_index\<close> that returns, the metadata file and the embedding
  file hold the returned lists, the metadata list is as long as the embedding matrix
  has rows, and at every index \<open>i\<close> the embedding row is the encoding of the \<open>i\<close>-th
  encoded chunk, which the \<open>i\<close>-th metadata entry describes: its \<open>doc_id\<close> and
  \<open>chunk_id\<close> locate that chunk in the documents, its title and URL are the
  document's, and its \<open>text_excerpt\<close> is the first 400 characters of the chunk.
\<close>

theorem build_index_aligned:
  assumes "build_index enc fs = Inr (fs', embs, ms)"
  shows "embeddings_npy fs' = Some embs \<and> metadata_json fs' = Some ms
         \<and> length ms = length embs
         \<and> (\<exists>ds text_chunks.
               docs_json fs = Some ds \<and> length text_chunks = length ms
               \<and> (\<forall>i < length ms.
                     embs ! i = enc (text_chunks ! i)
                     \<and> describes ds (text_chunks ! i) (ms ! i)))"
proof -
  from assms obtain ds where ds: "docs_json fs = Some ds"
    by (auto simp: build_index_def split: option.splits)
  from assms ds obtain text_chunks where
    run: "index_docs (enumerate 0 ds) ([], []) = Inr (text_chunks, ms)"
    and embs: "embs = map enc text_chunks"
    and fs': "fs' = fs\<lparr>embeddings_npy := Some embs, metadata_json := Some ms\<rparr>"
    by (auto simp: build_index_def Let_def split: sum.splits prod.splits)
  have al: "list_all2 (describes ds) text_chunks ms"
    using index_docs_describes [OF run _ enumerate_docs_index] by simp
  then have len: "length text_chunks = length ms"
    by (rule list_all2_lengthD)
  have "\<forall>i < length ms. embs ! i = enc (text_chunks ! i)
                          \<and> describes ds (text_chunks ! i) (ms ! i)"
    using al len by (simp add: embs list_all2_conv_all_nth)
  with ds len show ?thesis
    by (auto simp: fs' embs)
qed

theorem build_index_aligned_witness:
  "\<exists>fs' embs ms. build_index length example_files = Inr (fs', embs, ms)
     \<and> embeddings_npy fs' = Some embs \<and> metadata_json fs' = Some ms
     \<and> length ms = 2 \<and> length embs = 2
     \<and> map doc_id ms = [0, 2] \<and> map text_excerpt ms = [[7, 8], [9]]"
  using build_index_aligned [OF build_index_example] build_index_example
  by simp

section \<open>The crawl loop\<close>

text \<open>
  Two invariants of the loop: the frontier has no duplicates and no visited URL, and
  the fetched URLs are pairwise different and all visited.
\<close>

definition frontier_ok :: "crawl \<Rightarrow> bool" where
  "frontier_ok st \<longleftrightarrow> distinct (to_visit st) \<and> (\<forall>u \<in> set (to_visit st). u |\<notin>| visited st)"

definition fetched_once :: "crawl \<Rightarrow> bool" where
  "fetched_once st \<longleftrightarrow> distinct (fetched st) \<and> (\<forall>u \<in> set (fetched st). u |\<in>| visited st)"

lemma enqueue_set:
  "set (enqueue vis links frontier) = set frontier \<union> {l \<in> set links. l |\<notin>| vis}"
  unfolding enqueue_def by (induction links arbitrary: frontier) auto

lemma enqueue_distinct:
  "distinct frontier \<Longrightarrow> distinct (enqueue vis links frontier)"
  unfolding enqueue_def by (induction links arbitrary: frontier) auto

lemma crawl_step_fresh:
  assumes "to_visit st = u # rest" and "u |\<notin>| visited st"
  shows "fetched (crawl_step w start_url st) = fetched st @ [u]"
    and "visited (crawl_step w start_url st) = finsert u (visited st)"
    and "set (to_visit (crawl_step w start_url st))
         \<subseteq> set rest \<union> {l. l |\<notin>| finsert u (visited st)}"
    and "distinct rest \<Longrightarrow> distinct (to_visit (crawl_step w start_url st))"
  using assms
  by (auto simp: crawl_step_def Let_def enqueue_set enqueue_distinct split: sum.splits)

lemma frontier_ok_step:
  assumes "frontier_ok st"
  shows "frontier_ok (crawl_step w start_url st)"
proof (cases "to_visit st")
  case Nil
  then show ?thesis
    using assms by (simp add: crawl_step_def)
next
  case (Cons u rest)
  show ?thesis
  proof (cases "u |\<in>| visited st")
    case True
    then show ?thesis
      using assms Cons by (simp add: crawl_step_skip frontier_ok_def)
  next
    case False
    from assms Cons have d: "distinct rest" and nu: "u \<notin> set rest"
      and nv: "\<forall>x \<in> set rest. x |\<notin>| visited st"
      by (simp_all add: frontier_ok_def)
    have "\<forall>x \<in> set (to_visit (crawl_step w start_url st)). x |\<notin>| finsert u (visited st)"
      using crawl_step_fresh(3) [OF Cons False, of w start_url] nu nv by auto
    then show ?thesis
      using crawl_step_fresh(2,4) [OF Cons False, of w start_url] d
      by (simp add: frontier_ok_def)
  qed
qed

lemma fetched_once_step:
  assumes "fetched_once st"
  shows "fetched_once (crawl_step w start_url st)"
proof (cases "to_visit st")
  case Nil
  then show ?thesis
    using assms by (simp add: crawl_step_def)
next
  case (Cons u rest)
  show ?thesis
  proof (cases "u |\<in>| visited st")
    case True
    then show ?thesis
      using assms Cons by (simp add: crawl_step_skip fetched_once_def)
  next
    case False
    then show ?thesis
      using assms crawl_step_fresh(1,2) [OF Cons False, of w start_url]
      by (auto simp: fetched_once_def)
  qed
qed

lemma crawl_step_progress:
  assumes "crawl_cond max_pages st"
  shows "fcard (visited (crawl_step w start_url st)) = Suc (fcard (visited st))
         \<or> (visited (crawl_step w start_url st) = visited st
            \<and> length (to_visit (crawl_step w start_url st)) < length (to_visit st))"
proof -
  from assms obtain u rest where tv: "to_visit st = u # rest"
    by (cases "to_visit st") (auto simp: crawl_cond_def)
  show ?thesis
  proof (cases "u |\<in>| visited st")
    case True
    then show ?thesis
      using tv by (simp add: crawl_step_skip)
  next
    case False
    then show ?thesis
      using tv by (simp add: crawl_step_visited fcard_finsert_disjoint)
  qed
qed

lemma crawl_loop_iterates:
  "\<exists>n. crawl_loop w start_url max_pages st = (crawl_step w start_url ^^ n) st
       \<and> (\<forall>k < n. crawl_cond max_pages ((crawl_step w start_url ^^ k) st))
       \<and> \<not> crawl_cond max_pages ((crawl_step w start_url ^^ n) st)"
proof (induction w start_url max_pages st rule: crawl_loop.induct)
  case (1 w start_url max_pages st)
  show ?case
  proof (cases "crawl_cond max_pages st")
    case True
    from 1 [OF True] obtain n where
      eq: "crawl_loop w start_url max_pages (crawl_step w start_url st)
           = (crawl_step w start_url ^^ n) (crawl_step w start_url st)"
      and before: "\<forall>k < n. crawl_cond max_pages
                     ((crawl_step w start_url ^^ k) (crawl_step w start_url st))"
      and after: "\<not> crawl_cond max_pages
                     ((crawl_step w start_url ^^ n) (crawl_step w start_url st))"
      by blast
    have a: "crawl_loop w start_url max_pages st = (crawl_step w start_url ^^ Suc n) st"
      using True eq by (subst crawl_loop.simps) (simp add: funpow_swap1)
    have b: "\<forall>k < Suc n. crawl_cond max_pages ((crawl_step w start_url ^^ k) st)"
    proof (intro allI impI)
      fix k assume "k < Suc n"
      then show "crawl_cond max_pages ((crawl_step w start_url ^^ k) st)"
        using True before by (cases k) (simp_all add: funpow_swap1)
    qed
    have c: "\<not> crawl_cond max_pages ((crawl_step w start_url ^^ Suc n) st)"
      using after by (simp add: funpow_swap1)
    from a b c show ?thesis
      by blast
  next
    case False
    then have "crawl_loop w start_url max_pages st = (crawl_step w start_url ^^ 0) st"
      by (subst crawl_loop.simps) simp
    with False show ?thesis
      by (intro exI [of _ 0]) simp
  qed
qed

lemma crawl_init_ok: "frontier_ok (crawl_init start_url)" "fetched_once (crawl_init start_url)"
  by (simp_all add: crawl_init_def frontier_ok_def fetched_once_def)

lemma frontier_ok_funpow: "frontier_ok ((crawl_step w start_url ^^ n) (crawl_init u))"
  by (induction n) (simp_all add: crawl_init_ok frontier_ok_step)

lemma fetched_once_funpow: "fetched_once ((crawl_step w start_url ^^ n) (crawl_init u))"
  by (induction n) (simp_all add: crawl_init_ok fetched_once_step)

definition example_world :: "nat world" where
  "example_world =
     \<lparr>http_get = (\<lambda>u i. if u = [10] then Inr 0 else Inl RequestError),
      extract_text_from_page = (\<lambda>h u. Inr ([30], [11])),
      get_links = (\<lambda>h s. Inr [[20], [10]])\<rparr>"

lemma fetch_example:
  "fetch (http_get example_world) [10] = Inr 0"
  "fetch (http_get example_world) [20] = Inl RequestError"
  by (simp_all add: fetch_def example_world_def fetch_from.simps)

lemma scrape_example_steps:
  "crawl_step example_world [10] (crawl_init [10])
   = \<lparr>to_visit = [[20]], visited = {|[10]|},
      docs = [\<lparr>url = [10], title = [30], content = [11]\<rparr>], fetched = [[10]]\<rparr>"
  "crawl_step example_world [10]
     \<lparr>to_visit = [[20]], visited = {|[10]|},
      docs = [\<lparr>url = [10], title = [30], content = [11]\<rparr>], fetched = [[10]]\<rparr>
   = \<lparr>to_visit = [], visited = {|[20], [10]|},
      docs = [\<lparr>url = [10], title = [30], content = [11]\<rparr>], fetched = [[10], [20]]\<rparr>"
  by (simp_all add: crawl_step_def crawl_init_def fetch_example)
    (simp_all add: example_world_def enqueue_def)

lemma scrape_example:
  "scrape_run example_world [10] 5
   = \<lparr>to_visit = [], visited = {|[20], [10]|},
      docs = [\<lparr>url = [10], title = [30], content = [11]\<rparr>], fetched = [[10], [20]]\<rparr>"
proof -
  have c0: "crawl_cond 5 (crawl_init [10])"
    by (simp add: crawl_cond_def crawl_init_def fcard_fempty)
  have c1: "crawl_cond 5 \<lparr>to_visit = [[20]], visited = {|[10]|},
      docs = [\<lparr>url = [10], title = [30], content = [11]\<rparr>], fetched = [[10]]\<rparr>"
    by (simp add: crawl_cond_def fcard_finsert_if fcard_fempty)
  have c2: "\<not> crawl_cond 5 \<lparr>to_visit = [], visited = {|[20], [10]|},
      docs = [\<lparr>url = [10], title = [30], content = [11]\<rparr>], fetched = [[10], [20]]\<rparr>"
    by (simp add: crawl_cond_def)
  show ?thesis
    unfolding scrape_run_def
    by (subst crawl_loop.simps, simp only: c0 if_True scrape_example_steps,
        subst crawl_loop.simps, simp only: c1 if_True scrape_example_steps,
        subst crawl_loop.simps, simp only: c2 if_False)
qed

text \<open>
  C8.  For every seed URL and page budget the crawl loop of \<open>scrape\<close> stops after
  finitely many iterations \<open>n\<close>, in a state where the frontier is empty or the number of
  visited URLs has reached the budget.  Before each of the \<open>n\<close> iterations the loop
  condition holds; each iteration either adds one URL to the visited set or leaves the
  visited set alone and shortens the frontier; and the frontier never holds a URL twice
  nor a visited URL.
\<close>

theorem scrape_terminates:
  "\<exists>n. scrape_run w start_url max_pages = (crawl_step w start_url ^^ n) (crawl_init start_url)
       \<and> (to_visit (scrape_run w start_url max_pages) = []
          \<or> max_pages \<le> int (fcard (visited (scrape_run w start_url max_pages))))
       \<and> (\<forall>k < n. let st = (crawl_step w start_url ^^ k) (crawl_init start_url);
                       st' = crawl_step w start_url st
                   in to_visit st \<noteq> [] \<and> int (fcard (visited st)) < max_pages
                      \<and> (fcard (visited st') = Suc (fcard (visited st))
                         \<or> (visited st' = visited st \<and> length (to_visit st') < length (to_visit st)))
                      \<and> frontier_ok st \<and> frontier_ok st')"
proof -
  let ?f = "crawl_step w start_url"
  let ?i = "crawl_init start_url"
  from crawl_loop_iterates [of w start_url max_pages ?i] obtain n where
    eq: "scrape_run w start_url max_pages = (?f ^^ n) ?i"
    and before: "\<forall>k < n. crawl_cond max_pages ((?f ^^ k) ?i)"
    and after: "\<not> crawl_cond max_pages ((?f ^^ n) ?i)"
    unfolding scrape_run_def by blast
  have ok: "frontier_ok ((?f ^^ k) ?i)" for k
    by (rule frontier_ok_funpow)
  have fin: "to_visit (scrape_run w start_url max_pages) = []
             \<or> max_pages \<le> int (fcard (visited (scrape_run w start_url max_pages)))"
    using after by (auto simp: eq crawl_cond_def)
  have steps: "\<forall>k < n. let st = (?f ^^ k) ?i; st' = ?f st
                 in to_visit st \<noteq> [] \<and> int (fcard (visited st)) < max_pages
                    \<and> (fcard (visited st') = Suc (fcard (visited st))
                       \<or> (visited st' = visited st \<and> length (to_visit st') < length (to_visit st)))
                    \<and> frontier_ok st \<and> frontier_ok st'"
  proof (intro allI impI)
    fix k assume "k < n"
    with before have c: "crawl_cond max_pages ((?f ^^ k) ?i)"
      by simp
    from crawl_step_progress [OF c, of w start_url] c ok [of k] frontier_ok_step [OF ok [of k], of w start_url]
    show "let st = (?f ^^ k) ?i; st' = ?f st
          in to_visit st \<noteq> [] \<and> int (fcard (visited st)) < max_pages
             \<and> (fcard (visited st') = Suc (fcard (visited st))
                \<or> (visited st' = visited st \<and> length (to_visit st') < length (to_visit st)))
             \<and> frontier_ok st \<and> frontier_ok st'"
      by (simp add: Let_def crawl_cond_def)
  qed
  from eq fin steps show ?thesis
    by blast
qed

theorem scrape_terminates_witness:
  "scrape_run example_world [10] 5 = (crawl_step example_world [10] ^^ 2) (crawl_init [10])
   \<and> to_visit (scrape_run example_world [10] 5) = []
   \<and> fcard (visited (scrape_run example_world [10] 5)) = 2"
proof -
  have "(crawl_step example_world [10] ^^ 2) (crawl_init [10])
        = scrape_run example_world [10] 5"
    by (simp add: numeral_2_eq_2 scrape_example_steps scrape_example)
  moreover have "fcard (visited (scrape_run example_world [10] 5)) = 2"
    by (simp add: scrape_example fcard_finsert_if fcard_fempty)
  ultimately show ?thesis
    using scrape_terminates [of example_world "[10]" 5]
    by (simp add: scrape_example)
qed

text \<open>
  C10.  In a crawl run no URL is fetched twice.  An iteration that pops a visited URL
  only removes it from the frontier, without fetching; an iteration that pops a fresh
  URL fetches it once, adds it to the visited set, and leaves in the frontier only URLs
  that were there before or that are not visited, the popped one included.
\<close>

theorem scrape_fetches_once:
  "distinct (fetched (scrape_run w start_url max_pages))
   \<and> (\<forall>st u rest. to_visit st = u # rest \<longrightarrow>
        (u |\<in>| visited st \<longrightarrow> crawl_step w start_url st = st\<lparr>to_visit := rest\<rparr>)
        \<and> (u |\<notin>| visited st \<longrightarrow>
             fetched (crawl_step w start_url st) = fetched st @ [u]
             \<and> visited (crawl_step w start_url st) = finsert u (visited st)
             \<and> (\<forall>l \<in> set (to_visit (crawl_step w start_url st)).
                   l \<in> set rest \<or> l |\<notin>| finsert u (visited st))))"
proof -
  obtain n where eq: "scrape_run w start_url max_pages
                      = (crawl_step w start_url ^^ n) (crawl_init start_url)"
    using crawl_loop_iterates [of w start_url max_pages "crawl_init start_url"]
    unfolding scrape_run_def by blast
  have "fetched_once ((crawl_step w start_url ^^ n) (crawl_init start_url))"
    by (rule fetched_once_funpow)
  then have d: "distinct (fetched (scrape_run w start_url max_pages))"
    by (simp add: eq fetched_once_def)
  have s: "\<forall>st u rest. to_visit st = u # rest \<longrightarrow>
        (u |\<in>| visited st \<longrightarrow> crawl_step w start_url st = st\<lparr>to_visit := rest\<rparr>)
        \<and> (u |\<notin>| visited st \<longrightarrow>
             fetched (crawl_step w start_url st) = fetched st @ [u]
             \<and> visited (crawl_step w start_url st) = finsert u (visited st)
             \<and> (\<forall>l \<in> set (to_visit (crawl_step w start_url st)).
                   l \<in> set rest \<or> l |\<notin>| finsert u (visited st)))"
  proof (intro allI impI conjI)
    fix st :: crawl and u rest
    assume tv: "to_visit st = u # rest"
    {
      assume "u |\<in>| visited st"
      with tv show "crawl_step w start_url st = st\<lparr>to_visit := rest\<rparr>"
        by (rule crawl_step_skip)
    }
    {
      assume nv: "u |\<notin>| visited st"
      show "fetched (crawl_step w start_url st) = fetched st @ [u]"
        by (rule crawl_step_fresh(1) [OF tv nv])
      show "visited (crawl_step w start_url st) = finsert u (visited st)"
        by (rule crawl_step_fresh(2) [OF tv nv])
      show "\<forall>l \<in> set (to_visit (crawl_step w start_url st)).
              l \<in> set rest \<or> l |\<notin>| finsert u (visited st)"
        using crawl_step_fresh(3) [OF tv nv, of w start_url] by blast
    }
  qed
  from d s show ?thesis
    by blast
qed

theorem scrape_fetches_once_witness:
  "fetched (scrape_run example_world [10] 5) = [[10], [20]]
   \<and> distinct (fetched (scrape_run example_world [10] 5))"
  using scrape_fetches_once [of example_world "[10]" 5]
  by (simp add: scrape_example)

section \<open>Retrieval\<close>

text \<open>
  \<open>loaded X ms\<close> is the state of the module once \<open>load_index\<close> has read the matrix
  \<open>X\<close> and the metadata \<open>ms\<close>.  \<open>serves fs st X ms\<close>: in state \<open>st\<close> with files
  \<open>fs\<close>, queries are answered from the non-empty matrix \<open>X\<close> and the metadata \<open>ms\<close>,
  either because the module is fresh and the files hold them, or because they are
  loaded.  \<open>neighbours\<close> is the list of all rows by increasing distance.
\<close>

definition loaded :: "'v list \<Rightarrow> meta list \<Rightarrow> 'v rag" where
  "loaded X ms = \<lparr>embeddings = Some X, metas = Some ms, nn = Some (Fitted X)\<rparr>"

definition serves :: "'v files \<Rightarrow> 'v rag \<Rightarrow> 'v list \<Rightarrow> meta list \<Rightarrow> bool" where
  "serves fs st X ms \<longleftrightarrow>
     X \<noteq> [] \<and>
     ((st = rag_init \<and> embeddings_npy fs = Some X \<and> metadata_json fs = Some ms)
      \<or> st = loaded X ms)"

definition neighbours ::
  "('v \<Rightarrow> 'v \<Rightarrow> real) \<Rightarrow> ('v \<Rightarrow> 'v list \<Rightarrow> nat \<Rightarrow> nat) \<Rightarrow> 'v list \<Rightarrow> 'v \<Rightarrow> (real \<times> nat) list" where
  "neighbours metric tie X q =
     map (\<lambda>i. (metric q (X ! i), i))
       (sort_key (\<lambda>i. (metric q (X ! i), tie q X i)) [0..<length X])"

lemma kneighbors_fitted:
  "kneighbors metric tie (Fitted X) q k =
     (if k = 0 \<or> length X < k then Inl ValueError
      else Inr (take k (neighbours metric tie X q)))"
  by (simp add: kneighbors_def neighbours_def)

lemma neighbours_length: "length (neighbours metric tie X q) = length X"
  by (simp add: neighbours_def)

lemma neighbours_sorted: "sorted (map fst (neighbours metric tie X q))"
proof -
  let ?key = "\<lambda>i. (metric q (X ! i), tie q X i)"
  have "sorted (map ?key (sort_key ?key [0..<length X]))"
    by (rule sorted_sort_key)
  then have "sorted_wrt (\<lambda>i j. ?key i \<le> ?key j) (sort_key ?key [0..<length X])"
    by (simp add: sorted_map)
  then have "sorted_wrt (\<lambda>i j. metric q (X ! i) \<le> metric q (X ! j))
               (sort_key ?key [0..<length X])"
    by (rule sorted_wrt_mono_rel [rotated]) auto
  then show ?thesis
    by (simp add: neighbours_def sorted_map comp_def)
qed

lemma neighbours_set:
  "p \<in> set (neighbours metric tie X q) \<Longrightarrow> snd p < length X \<and> fst p = metric q (X ! snd p)"
  by (auto simp: neighbours_def)

lemma collect_results_Inr:
  "collect_results ms ps acc = Inr rs \<Longrightarrow>
   rs = acc @ map (\<lambda>p. \<lparr>meta = ms ! snd p, similarity = 1 - fst p\<rparr>) ps
   \<and> (\<forall>p \<in> set ps. snd p < length ms)"
  by (induction ms ps acc rule: collect_results.induct) (auto split: if_splits)

lemma collect_results_ok:
  "\<forall>p \<in> set ps. snd p < length ms \<Longrightarrow>
   collect_results ms ps acc = Inr (acc @ map (\<lambda>p. \<lparr>meta = ms ! snd p, similarity = 1 - fst p\<rparr>) ps)"
  by (induction ms ps acc rule: collect_results.induct) auto

lemma load_index_fresh:
  "embeddings_npy fs = Some X \<Longrightarrow> metadata_json fs = Some ms \<Longrightarrow> X \<noteq> [] \<Longrightarrow>
   load_index fs rag_init = (loaded X ms, Inr (Fitted X))"
  by (simp add: load_index_def rag_init_def loaded_def fit_def)

lemma retrieve_serves:
  assumes "serves fs st X ms"
  shows "retrieve lib fs st q k =
           (loaded X ms,
            case kneighbors (cosine lib) (tie_rank lib) (Fitted X) (encode lib q) k of
              Inl err \<Rightarrow> Inl err
            | Inr ns \<Rightarrow> collect_results ms ns [])"
proof -
  from assms have ne: "X \<noteq> []"
    by (simp add: serves_def)
  from assms consider
    (fresh) "st = rag_init" "embeddings_npy fs = Some X" "metadata_json fs = Some ms"
    | (warm) "st = loaded X ms"
    by (auto simp: serves_def)
  then show ?thesis
  proof cases
    case fresh
    have "nn (rag_init :: 'a rag) = None"
      by (simp add: rag_init_def)
    then show ?thesis
      using fresh load_index_fresh [OF fresh(2,3) ne]
      by (simp add: retrieve_def loaded_def Let_def split: sum.split)
  next
    case warm
    then show ?thesis
      by (simp add: retrieve_def loaded_def Let_def split: sum.split)
  qed
qed

lemma retrieve_results:
  assumes "serves fs st X ms" and "snd (retrieve lib fs st q k) = Inr rs"
  shows "0 < k \<and> k \<le> length X
         \<and> rs = map (\<lambda>p. \<lparr>meta = ms ! snd p, similarity = 1 - fst p\<rparr>)
                  (take k (neighbours (cosine lib) (tie_rank lib) X (encode lib q)))
         \<and> (\<forall>p \<in> set (take k (neighbours (cosine lib) (tie_rank lib) X (encode lib q))). snd p < length ms)"
proof -
  from assms have c: "(case kneighbors (cosine lib) (tie_rank lib) (Fitted X) (encode lib q) k of
              Inl err \<Rightarrow> Inl err
            | Inr ns \<Rightarrow> collect_results ms ns []) = Inr rs"
    by (simp add: retrieve_serves)
  then have k: "0 < k \<and> k \<le> length X"
    by (auto simp: kneighbors_fitted split: if_splits)
  with c have "collect_results ms (take k (neighbours (cosine lib) (tie_rank lib) X (encode lib q))) [] = Inr rs"
    by (simp add: kneighbors_fitted)
  from collect_results_Inr [OF this] k show ?thesis
    by simp
qed

lemma similarity_sorted:
  assumes "sorted (map fst ps)"
  shows "sorted_wrt (\<ge>) (map (\<lambda>p. 1 - fst p) ps :: real list)"
  using assms by (induction ps) auto

text \<open>
  C3, as the code has it.  When the metadata is aligned with the matrix, \<open>retrieve\<close>
  with \<open>1 \<le> k \<le> number of chunks\<close> returns exactly \<open>k\<close> results, which is
  \<open>min k (number of chunks)\<close>, by non-increasing similarity.  With \<open>k\<close> above the
  number of chunks it does not return the chunks there are: \<open>kneighbors\<close> raises
  \<open>ValueError\<close>, which \<open>retrieve\<close> lets through.
\<close>

theorem retrieve_top_k:
  assumes "serves fs st X ms" and "length ms = length X"
  shows "(1 \<le> k \<and> k \<le> length X \<longrightarrow>
            (\<exists>rs. snd (retrieve lib fs st q k) = Inr rs \<and> length rs = k
                  \<and> sorted_wrt (\<ge>) (map similarity rs)))
         \<and> (length X < k \<longrightarrow> snd (retrieve lib fs st q k) = Inl ValueError)"
proof (intro conjI impI)
  assume k: "1 \<le> k \<and> k \<le> length X"
  let ?ns = "take k (neighbours (cosine lib) (tie_rank lib) X (encode lib q))"
  let ?rs = "map (\<lambda>p. \<lparr>meta = ms ! snd p, similarity = 1 - fst p\<rparr>) ?ns"
  have "\<forall>p \<in> set ?ns. snd p < length ms"
    using neighbours_set [of _ "cosine lib" "tie_rank lib" X "encode lib q"] assms(2)
    by (auto dest: in_set_takeD)
  then have r: "snd (retrieve lib fs st q k) = Inr ?rs"
    using k collect_results_ok [of ?ns ms "[]"]
    by (simp add: retrieve_serves [OF assms(1)] kneighbors_fitted)
  have l: "length ?rs = k"
    using k by (simp add: neighbours_length)
  have "sorted (map fst ?ns)"
    using neighbours_sorted [of "cosine lib" "tie_rank lib" X "encode lib q"]
    by (simp add: sorted_wrt_take flip: take_map)
  then have s: "sorted_wrt (\<ge>) (map similarity ?rs)"
    using similarity_sorted [of ?ns] by (simp add: comp_def)
  from r l s show "\<exists>rs. snd (retrieve lib fs st q k) = Inr rs \<and> length rs = k
                     \<and> sorted_wrt (\<ge>) (map similarity rs)"
    by blast
next
  assume "length X < k"
  then show "snd (retrieve lib fs st q k) = Inl ValueError"
    by (simp add: retrieve_serves [OF assms(1)] kneighbors_fitted)
qed

lemma retrieve_result_row:
  assumes "serves fs st X ms"
    and "snd (retrieve lib fs st q k) = Inr rs"
    and "r \<in> set rs"
  shows "\<exists>idx. idx < length X \<and> idx < length ms \<and> meta r = ms ! idx
               \<and> similarity r = 1 - cosine lib (encode lib q) (X ! idx)"
proof -
  let ?ns = "take k (neighbours (cosine lib) (tie_rank lib) X (encode lib q))"
  from retrieve_results [OF assms(1,2)] have
    rs: "rs = map (\<lambda>p. \<lparr>meta = ms ! snd p, similarity = 1 - fst p\<rparr>) ?ns"
    and inb: "\<forall>p \<in> set ?ns. snd p < length ms"
    by simp_all
  from assms(3) rs obtain p where p: "p \<in> set ?ns"
    and r: "r = \<lparr>meta = ms ! snd p, similarity = 1 - fst p\<rparr>"
    by auto
  from p have pn: "snd p < length X \<and> fst p = cosine lib (encode lib q) (X ! snd p)"
    by (auto dest: in_set_takeD neighbours_set)
  show ?thesis
    using pn inb p r by (intro exI [of _ "snd p"]) simp
qed

lemma similarity_range:
  fixes d :: real
  shows "0 \<le> d \<and> d \<le> 2 \<Longrightarrow> - 1 \<le> 1 - d \<and> 1 - d \<le> 1"
  by simp

text \<open>
  C4.  Every result that \<open>retrieve\<close> returns carries the metadata of some row and, as
  similarity, 1 minus the cosine distance between the query and that row; when the
  cosine distances to the rows lie in \<open>[0, 2]\<close>, the similarity lies in \<open>[-1, 1]\<close>.
\<close>

theorem retrieve_similarity:
  assumes "serves fs st X ms"
    and "snd (retrieve lib fs st q k) = Inr rs"
    and "r \<in> set rs"
  shows "(\<exists>idx. idx < length X \<and> idx < length ms \<and> meta r = ms ! idx
                \<and> similarity r = 1 - cosine lib (encode lib q) (X ! idx))
         \<and> ((\<forall>row \<in> set X. 0 \<le> cosine lib (encode lib q) row \<and> cosine lib (encode lib q) row \<le> 2)
              \<longrightarrow> - 1 \<le> similarity r \<and> similarity r \<le> 1)"
proof (intro conjI impI)
  show row: "\<exists>idx. idx < length X \<and> idx < length ms \<and> meta r = ms ! idx
                \<and> similarity r = 1 - cosine lib (encode lib q) (X ! idx)"
    using assms by (rule retrieve_result_row)
  assume range: "\<forall>row \<in> set X. 0 \<le> cosine lib (encode lib q) row
                                \<and> cosine lib (encode lib q) row \<le> 2"
  from row obtain idx where idx: "idx < length X"
    and sim: "similarity r = 1 - cosine lib (encode lib q) (X ! idx)"
    by blast
  from idx have "X ! idx \<in> set X"
    by simp
  with range have d: "0 \<le> cosine lib (encode lib q) (X ! idx)
                      \<and> cosine lib (encode lib q) (X ! idx) \<le> 2"
    by blast
  from similarity_range [OF d] show "- 1 \<le> similarity r" and "similarity r \<le> 1"
    by (simp_all add: sim)
qed

section \<open>Answers and the ask endpoint\<close>

text \<open>
  The arithmetic mean of a non-empty list, the citation of a result, and the prompt
  that \<open>answer_query\<close> sends.
\<close>

definition mean :: "real list \<Rightarrow> real" where
  "mean xs = sum_list xs / real (length xs)"

definition cite :: "result \<Rightarrow> citation" where
  "cite r = \<lparr>cite_title = meta_title (meta r), cite_url = meta_url (meta r),
             cite_similarity = similarity r\<rparr>"

definition prompt_of :: "'v libs \<Rightarrow> pystr \<Rightarrow> result list \<Rightarrow> pystr" where
  "prompt_of lib question results =
     PROMPT_TEMPLATE_head @ join (ascii ''\<newline>\<newline>'') (map (format_snippet lib) results)
     @ PROMPT_TEMPLATE_mid @ question @ PROMPT_TEMPLATE_tail"

lemma truediv_count:
  "py_truediv s (real (max (Suc 0) n)) = Inr (s / real (max (Suc 0) n))"
  by (simp add: py_truediv_def)

lemma max_one_length: "rs \<noteq> [] \<Longrightarrow> max (Suc 0) (length rs) = length rs"
  by (cases rs) simp_all

lemma answer_results_no_client:
  "openai_client lib = None \<Longrightarrow>
   answer_results lib question results
   = Inr \<lparr>answer = WARNING_PREFIX @ join (ascii ''\<newline>\<newline>'') (map (format_snippet lib) results),
          citations = map cite results,
          confidence = sum_list (map similarity results) / real (max 1 (length results))\<rparr>"
  by (simp add: answer_results_def Let_def truediv_count cite_def)

lemma answer_results_client:
  "openai_client lib = Some create \<Longrightarrow>
   answer_results lib question results
   = (case create SYSTEM_CONTENT (prompt_of lib question results) of
        Inl err \<Rightarrow> Inl err
      | Inr msg \<Rightarrow>
          Inr \<lparr>answer = strip msg, citations = map cite results,
               confidence = sum_list (map similarity results) / real (max 1 (length results))\<rparr>)"
  by (simp add: answer_results_def Let_def truediv_count cite_def prompt_of_def split: sum.split)

lemma answer_results_confidence:
  "answer_results lib question results = Inr a \<Longrightarrow>
   confidence a = sum_list (map similarity results) / real (max 1 (length results))"
  by (cases "openai_client lib")
    (auto simp: answer_results_no_client answer_results_client split: sum.splits)

lemma answer_query_results:
  "snd (retrieve lib fs st q k) = Inr rs \<Longrightarrow>
   snd (answer_query lib fs st q k) = answer_results lib q rs"
  by (cases "retrieve lib fs st q k") (simp add: answer_query_def)

lemma answer_query_raises:
  "snd (retrieve lib fs st q k) = Inl e \<Longrightarrow> snd (answer_query lib fs st q k) = Inl e"
  by (cases "retrieve lib fs st q k") (simp add: answer_query_def)

lemma answer_query_Inr:
  "snd (answer_query lib fs st q k) = Inr a \<Longrightarrow>
   \<exists>rs. snd (retrieve lib fs st q k) = Inr rs \<and> answer_results lib q rs = Inr a"
  by (cases "retrieve lib fs st q k") (auto simp: answer_query_def split: sum.splits)

lemma retrieve_client_irrelevant:
  "retrieve (lib\<lparr>openai_client := c\<rparr>) fs st q k = retrieve lib fs st q k"
  by (auto simp: retrieve_def Let_def split: prod.splits sum.splits option.splits)

lemma sum_list_upper: "\<forall>x \<in> set xs. x \<le> b \<Longrightarrow> sum_list xs \<le> real (length xs) * b"
  by (induction xs) (auto simp: algebra_simps)

lemma sum_list_lower: "\<forall>x \<in> set xs. b \<le> x \<Longrightarrow> real (length xs) * b \<le> sum_list xs"
  by (induction xs) (auto simp: algebra_simps)

lemma mean_bounds:
  assumes "xs \<noteq> []" and "\<forall>x \<in> set xs. lo \<le> x \<and> x \<le> hi"
  shows "lo \<le> mean xs \<and> mean xs \<le> hi"
proof -
  have n: "0 < real (length xs)"
    using assms(1) by simp
  have "real (length xs) * lo \<le> sum_list xs" and "sum_list xs \<le> real (length xs) * hi"
    using assms(2) by (simp_all add: sum_list_lower sum_list_upper)
  then show ?thesis
    using n by (simp add: mean_def pos_le_divide_eq pos_divide_le_eq mult.commute)
qed

lemma join_butlast:
  "join sep xs = concat (map (\<lambda>x. x @ sep) (butlast xs)) @ (if xs = [] then [] else last xs)"
  by (induction sep xs rule: join.induct) simp_all

lemma retrieve_returns:
  assumes "serves fs st X ms" and "length ms = length X" and "1 \<le> k" and "k \<le> length X"
  shows "\<exists>rs. snd (retrieve lib fs st q k) = Inr rs"
proof -
  let ?ns = "take k (neighbours (cosine lib) (tie_rank lib) X (encode lib q))"
  have "\<forall>p \<in> set ?ns. snd p < length ms"
    using neighbours_set [of _ "cosine lib" "tie_rank lib" X "encode lib q"] assms(2)
    by (auto dest: in_set_takeD)
  then show ?thesis
    using assms(3,4) collect_results_ok [of ?ns ms "[]"]
    by (simp add: retrieve_serves [OF assms(1)] kneighbors_fitted)
qed

text \<open>
  C6, as the code has it.  Without a completion client, whenever \<open>retrieve\<close> returns
  results, \<open>answer_query\<close> returns: its answer is the warning sign and the sentence
  about the missing key, followed by one block per result (title, URL, excerpt and
  similarity, in the order retrieved) with a blank line between blocks; its citations
  are those of the results; its confidence is the mean of the retrieved similarities
  (0 for no result).  That is the case whenever \<open>1 \<le> top_k \<le> number of chunks\<close> on an
  aligned index.  The mode has no error of its own, but it does not prevent one:
  \<open>answer_query\<close> raises exactly the errors that \<open>retrieve\<close> raises.
\<close>

theorem answer_query_fallback:
  assumes "openai_client lib = None"
  shows "let snippet = (\<lambda>r. ascii ''---\<newline>Title: '' @ meta_title (meta r)
                            @ ascii ''\<newline>URL: '' @ meta_url (meta r)
                            @ ascii ''\<newline>Excerpt: '' @ text_excerpt (meta r)
                            @ ascii ''\<newline>Similarity: '' @ format_4f lib (similarity r))
         in (\<forall>rs. snd (retrieve lib fs st q k) = Inr rs \<longrightarrow>
               snd (answer_query lib fs st q k)
               = Inr \<lparr>answer =
                        [9888, 65039]
                        @ ascii '' OpenAI API key not found. Here are the retrieved snippets:\<newline>\<newline>''
                        @ concat (map (\<lambda>r. snippet r @ ascii ''\<newline>\<newline>'') (butlast rs))
                        @ (if rs = [] then [] else snippet (last rs)),
                      citations =
                        map (\<lambda>r. \<lparr>cite_title = meta_title (meta r), cite_url = meta_url (meta r),
                                    cite_similarity = similarity r\<rparr>) rs,
                      confidence =
                        (if rs = [] then 0 else sum_list (map similarity rs) / real (length rs))\<rparr>)
            \<and> (\<forall>e. snd (answer_query lib fs st q k) = Inl e
                     \<longleftrightarrow> snd (retrieve lib fs st q k) = Inl e)
            \<and> (\<forall>X ms. serves fs st X ms \<and> length ms = length X \<and> 1 \<le> k \<and> k \<le> length X
                     \<longrightarrow> (\<exists>a. snd (answer_query lib fs st q k) = Inr a))"
proof -
  have returns: "snd (answer_query lib fs st q k)
      = Inr \<lparr>answer = WARNING_PREFIX @ join (ascii ''\<newline>\<newline>'') (map (format_snippet lib) rs),
             citations = map cite rs,
             confidence = sum_list (map similarity rs) / real (max 1 (length rs))\<rparr>"
    if "snd (retrieve lib fs st q k) = Inr rs" for rs
    using answer_query_results [OF that] answer_results_no_client [OF assms] by simp
  have text_eq: "WARNING_PREFIX @ join (ascii ''\<newline>\<newline>'') (map (format_snippet lib) rs)
      = [9888, 65039]
        @ ascii '' OpenAI API key not found. Here are the retrieved snippets:\<newline>\<newline>''
        @ concat (map (\<lambda>r. format_snippet lib r @ ascii ''\<newline>\<newline>'') (butlast rs))
        @ (if rs = [] then [] else format_snippet lib (last rs))" for rs :: "result list"
    by (simp add: WARNING_PREFIX_def join_butlast last_map comp_def flip: map_butlast)
  have conf_eq: "sum_list (map similarity rs) / real (max 1 (length rs))
      = (if rs = [] then 0 else sum_list (map similarity rs) / real (length rs))"
    for rs :: "result list"
    by (simp add: max_one_length)
  have a: "snd (answer_query lib fs st q k)
      = Inr \<lparr>answer =
               [9888, 65039]
               @ ascii '' OpenAI API key not found. Here are the retrieved snippets:\<newline>\<newline>''
               @ concat (map (\<lambda>r. format_snippet lib r @ ascii ''\<newline>\<newline>'') (butlast rs))
               @ (if rs = [] then [] else format_snippet lib (last rs)),
             citations = map cite rs,
             confidence = (if rs = [] then 0 else sum_list (map similarity rs) / real (length rs))\<rparr>"
    if "snd (retrieve lib fs st q k) = Inr rs" for rs
    using returns [OF that] text_eq [of rs] conf_eq [of rs] by simp
  have b: "snd (answer_query lib fs st q k) = Inl e \<longleftrightarrow> snd (retrieve lib fs st q k) = Inl e"
    for e
  proof (cases "snd (retrieve lib fs st q k)")
    case (Inl e')
    from answer_query_raises [OF Inl] Inl show ?thesis
      by simp
  next
    case (Inr rs)
    from returns [OF Inr] Inr show ?thesis
      by simp
  qed
  have c: "\<exists>a. snd (answer_query lib fs st q k) = Inr a"
    if "serves fs st X ms \<and> length ms = length X \<and> 1 \<le> k \<and> k \<le> length X" for X ms
  proof -
    from that retrieve_returns [of fs st X ms k lib q] obtain rs where
      "snd (retrieve lib fs st q k) = Inr rs"
      by blast
    from returns [OF this] show ?thesis
      by blast
  qed
  from a b c show ?thesis
    unfolding Let_def format_snippet_def cite_def by blast
qed

text \<open>
  C7, as the code has it.  Whenever \<open>answer_query\<close> returns, its confidence is the
  unweighted mean of the similarities of the retrieved results, it is the same for
  every completion client (so for every completion text), and it lies in \<open>[-1, 1]\<close>
  when the cosine distances lie in \<open>[0, 2]\<close>.  It need not lie in \<open>[0, 1]\<close>.
\<close>

theorem answer_query_confidence:
  assumes "serves fs st X ms"
    and "snd (answer_query lib fs st q k) = Inr a"
    and "\<forall>row \<in> set X. 0 \<le> cosine lib (encode lib q) row \<and> cosine lib (encode lib q) row \<le> 2"
  shows "\<exists>rs. snd (retrieve lib fs st q k) = Inr rs \<and> rs \<noteq> []
              \<and> confidence a = mean (map similarity rs)
              \<and> - 1 \<le> confidence a \<and> confidence a \<le> 1
              \<and> (\<forall>c a'. snd (answer_query (lib\<lparr>openai_client := c\<rparr>) fs st q k) = Inr a'
                          \<longrightarrow> confidence a' = confidence a)"
proof -
  from answer_query_Inr [OF assms(2)] obtain rs where
    r: "snd (retrieve lib fs st q k) = Inr rs" and a: "answer_results lib q rs = Inr a"
    by blast
  from retrieve_results [OF assms(1) r] have "length rs = k \<and> 0 < k"
    by (simp add: neighbours_length)
  then have ne: "rs \<noteq> []"
    by auto
  then have m: "max (Suc 0) (length rs) = length rs"
    by (rule max_one_length)
  have conf: "confidence a = mean (map similarity rs)"
    using answer_results_confidence [OF a] by (simp add: m mean_def)
  have "\<forall>x \<in> set (map similarity rs). - 1 \<le> x \<and> x \<le> 1"
  proof
    fix x assume "x \<in> set (map similarity rs)"
    then obtain r where r': "r \<in> set rs" and x: "x = similarity r"
      by auto
    from retrieve_result_row [OF assms(1) r r'] obtain idx where idx: "idx < length X"
      and sim: "similarity r = 1 - cosine lib (encode lib q) (X ! idx)"
      by blast
    from idx have "X ! idx \<in> set X"
      by simp
    with assms(3) have "0 \<le> cosine lib (encode lib q) (X ! idx)
                        \<and> cosine lib (encode lib q) (X ! idx) \<le> 2"
      by blast
    from similarity_range [OF this] show "- 1 \<le> x \<and> x \<le> 1"
      by (simp add: x sim)
  qed
  from mean_bounds [OF _ this] ne have bounds: "- 1 \<le> confidence a \<and> confidence a \<le> 1"
    by (simp add: conf)
  have indep: "\<forall>c a'. snd (answer_query (lib\<lparr>openai_client := c\<rparr>) fs st q k) = Inr a'
                          \<longrightarrow> confidence a' = confidence a"
  proof (intro allI impI)
    fix c a'
    assume "snd (answer_query (lib\<lparr>openai_client := c\<rparr>) fs st q k) = Inr a'"
    from answer_query_Inr [OF this] r
    have "answer_results (lib\<lparr>openai_client := c\<rparr>) q rs = Inr a'"
      by (simp add: retrieve_client_irrelevant)
    from answer_results_confidence [OF this] show "confidence a' = confidence a"
      by (simp add: conf m mean_def)
  qed
  from r ne conf bounds indep show ?thesis
    by blast
qed

text \<open>
  C9.  The division by \<open>max(1, len(results))\<close> never divides by zero, for any list of
  results.  With no results the confidence is 0, and without a client the answer is
  returned; the only error of \<open>answer_query\<close> after \<open>retrieve\<close> has returned is an
  error of the completion call.
\<close>

theorem answer_results_guarded:
  "(\<forall>results :: result list. \<exists>c. py_truediv (sum_list (map similarity results))
                               (real (max 1 (length results))) = Inr c)
   \<and> (\<forall>a. answer_results lib q [] = Inr a \<longrightarrow> confidence a = 0)
   \<and> (openai_client lib = None \<longrightarrow>
        answer_results lib q [] = Inr \<lparr>answer = WARNING_PREFIX, citations = [], confidence = 0\<rparr>)
   \<and> (\<forall>results e. answer_results lib q results = Inl e \<longrightarrow>
        (\<exists>create. openai_client lib = Some create
                   \<and> create SYSTEM_CONTENT (prompt_of lib q results) = Inl e))
   \<and> (\<forall>fs st k results. snd (retrieve lib fs st q k) = Inr results \<longrightarrow>
        snd (answer_query lib fs st q k) = answer_results lib q results)"
proof (intro conjI allI impI)
  fix results :: "result list"
  show "\<exists>c. py_truediv (sum_list (map similarity results))
                        (real (max 1 (length results))) = Inr c"
    by (simp add: truediv_count)
next
  fix a assume "answer_results lib q [] = Inr a"
  from answer_results_confidence [OF this] show "confidence a = 0"
    by simp
next
  assume "openai_client lib = None"
  then show "answer_results lib q [] = Inr \<lparr>answer = WARNING_PREFIX, citations = [], confidence = 0\<rparr>"
    by (simp add: answer_results_no_client)
next
  fix results e assume e: "answer_results lib q results = Inl e"
  show "\<exists>create. openai_client lib = Some create
                   \<and> create SYSTEM_CONTENT (prompt_of lib q results) = Inl e"
  proof (cases "openai_client lib")
    case None
    with e show ?thesis
      by (simp add: answer_results_no_client)
  next
    case (Some create)
    with e show ?thesis
      by (auto simp: answer_results_client split: sum.splits)
  qed
next
  fix fs st k results
  assume "snd (retrieve lib fs st q k) = Inr results"
  then show "snd (answer_query lib fs st q k) = answer_results lib q results"
    by (rule answer_query_results)
qed

lemma dropWhile_all: "(\<forall>x \<in> set (dropWhile P s). P x) \<longleftrightarrow> (\<forall>x \<in> set s. P x)"
  by (induction s) auto

lemma strip_empty: "strip s = [] \<longleftrightarrow> (\<forall>c \<in> set s. isspace c)"
  by (simp add: strip_def dropWhile_eq_Nil_conv dropWhile_all)

text \<open>
  C5.  When the question is missing, empty or made of whitespace only, \<open>ask\<close> returns
  status 400 with the error body \<open>empty question\<close>; \<open>answer_query\<close>, and with it
  \<open>retrieve\<close>, is not called, and the state of the retriever is unchanged.
\<close>

theorem ask_empty_question:
  assumes "question_field = None
           \<or> (\<exists>s. question_field = Some (JString s) \<and> (\<forall>c \<in> set s. isspace c))"
  shows "ask lib fs st question_field = (st, Inr (ErrorBody (ascii ''empty question''), 400))
         \<and> answer_calls (fst (ask lib fs st question_field)) = answer_calls st
         \<and> rag_state (fst (ask lib fs st question_field)) = rag_state st"
proof -
  from assms obtain s where s: "(case question_field of None \<Rightarrow> JString [] | Some v \<Rightarrow> v) = JString s"
    and e: "strip s = []"
    by (auto simp: strip_empty)
  then have "ask lib fs st question_field = (st, Inr (ErrorBody (ascii ''empty question''), 400))"
    by (simp add: ask_def)
  then show ?thesis
    by simp
qed

section \<open>A run on a small index\<close>

text \<open>
  A run on an index of two chunks.  The rows and the query embedding are unit vectors;
  \<open>cosine_distance\<close> is the cosine distance of real vectors.  The first row is
  orthogonal to the query (distance 1), the second opposite to it (distance 2).
\<close>

definition cosine_distance :: "real list \<Rightarrow> real list \<Rightarrow> real" where
  "cosine_distance u v =
     1 - (\<Sum>(a, b) \<leftarrow> zip u v. a * b) / (sqrt (\<Sum>a \<leftarrow> u. a * a) * sqrt (\<Sum>b \<leftarrow> v. b * b))"

definition example_libs :: "real list libs" where
  "example_libs =
     \<lparr>encode = (\<lambda>q. [1, 0]),
      cosine = cosine_distance,
      tie_rank = (\<lambda>q X i. i),
      format_4f = (\<lambda>x. if x = 0 then ascii ''0.0000'' else ascii ''-1.0000''),
      openai_client = None,
      str_of_error = (\<lambda>e. ascii ''error'')\<rparr>"

definition example_metas :: "meta list" where
  "example_metas =
     [\<lparr>doc_id = 0, chunk_id = 0, meta_title = [65], meta_url = [97], text_excerpt = [120]\<rparr>,
      \<lparr>doc_id = 1, chunk_id = 0, meta_title = [66], meta_url = [98], text_excerpt = [121]\<rparr>]"

definition example_index :: "real list files" where
  "example_index =
     \<lparr>docs_json = None, embeddings_npy = Some [[0, 1], [- 1, 0]],
      metadata_json = Some example_metas\<rparr>"

lemma example_distances:
  "cosine_distance [1, 0] [0, 1] = 1"
  "cosine_distance [1, 0] [- 1, 0] = 2"
  by (simp_all add: cosine_distance_def)

lemma example_serves: "serves example_index rag_init [[0, 1], [- 1, 0]] example_metas"
  by (simp add: serves_def example_index_def)

lemma example_neighbours:
  "neighbours (cosine example_libs) (tie_rank example_libs) [[0, 1], [- 1, 0]]
     (encode example_libs q) = [(1, 0), (2, 1)]"
  by (simp add: neighbours_def example_libs_def example_distances upt_rec [of 0])

text \<open>
  Two rows at the same distance come in the order of their ranks: either order is a
  possible answer of the neighbour search.
\<close>

lemma tie_order_example:
  "map snd (neighbours cosine_distance (\<lambda>q X i. i) [[0, 1], [0, 1]] [1, 0]) = [0, 1]"
  "map snd (neighbours cosine_distance (\<lambda>q X i. 2 - i) [[0, 1], [0, 1]] [1, 0]) = [1, 0]"
  by (simp_all add: neighbours_def example_distances upt_rec [of 0])

lemma retrieve_example:
  "snd (retrieve example_libs example_index rag_init q 2)
   = Inr [\<lparr>meta = example_metas ! 0, similarity = 0\<rparr>, \<lparr>meta = example_metas ! 1, similarity = - 1\<rparr>]"
  by (simp add: retrieve_serves [OF example_serves] kneighbors_fitted example_neighbours
      example_metas_def)

lemma retrieve_example_too_many:
  "snd (retrieve example_libs example_index rag_init q 3) = Inl ValueError"
  by (simp add: retrieve_serves [OF example_serves] kneighbors_fitted)

theorem retrieve_top_k_witness:
  "(\<exists>rs. snd (retrieve example_libs example_index rag_init [113] 2) = Inr rs \<and> length rs = 2
         \<and> map similarity rs = [0, - 1])
   \<and> snd (retrieve example_libs example_index rag_init [113] 3) = Inl ValueError"
  using retrieve_top_k [OF example_serves, of 2 example_libs "[113]"]
    retrieve_top_k [OF example_serves, of 3 example_libs "[113]"]
  by (simp add: retrieve_example example_metas_def)

theorem retrieve_min_counterexample:
  "length [[0, 1], [- 1, 0 :: real]] = 2
   \<and> snd (retrieve example_libs example_index rag_init [113] 3) = Inl ValueError
   \<and> \<not> (\<exists>rs. snd (retrieve example_libs example_index rag_init [113] 3) = Inr rs
              \<and> length rs = min 3 2)"
  by (simp add: retrieve_example_too_many)

theorem retrieve_similarity_witness:
  "\<exists>idx < 2. similarity \<lparr>meta = example_metas ! 1, similarity = - 1\<rparr>
               = 1 - cosine_distance [1, 0] ([[0, 1], [- 1, 0]] ! idx)
             \<and> - 1 \<le> similarity \<lparr>meta = example_metas ! 1, similarity = - 1\<rparr>
             \<and> similarity \<lparr>meta = example_metas ! 1, similarity = - 1\<rparr> \<le> 1"
proof -
  have range: "\<forall>row \<in> set [[0, 1], [- 1, 0]].
                 0 \<le> cosine example_libs (encode example_libs [113]) row
                 \<and> cosine example_libs (encode example_libs [113]) row \<le> 2"
    by (simp add: example_libs_def example_distances)
  have "\<lparr>meta = example_metas ! 1, similarity = - 1\<rparr>
        \<in> set [\<lparr>meta = example_metas ! 0, similarity = 0\<rparr>,
                \<lparr>meta = example_metas ! 1, similarity = - 1\<rparr>]"
    by simp
  from retrieve_similarity [OF example_serves retrieve_example this] range
  show ?thesis
    by (intro exI [of _ 1]) (simp add: example_distances)
qed

lemma answer_example:
  "snd (answer_query example_libs example_index rag_init q 2)
   = Inr \<lparr>answer = WARNING_PREFIX @ join (ascii ''\<newline>\<newline>'')
                      (map (format_snippet example_libs)
                         [\<lparr>meta = example_metas ! 0, similarity = 0\<rparr>,
                          \<lparr>meta = example_metas ! 1, similarity = - 1\<rparr>]),
          citations = map cite [\<lparr>meta = example_metas ! 0, similarity = 0\<rparr>,
                                \<lparr>meta = example_metas ! 1, similarity = - 1\<rparr>],
          confidence = - (1 / 2)\<rparr>"
proof -
  have "openai_client example_libs = None"
    by (simp add: example_libs_def)
  then show ?thesis
    by (simp add: answer_query_results [OF retrieve_example] answer_results_no_client)
qed

theorem answer_query_fallback_witness:
  "snd (answer_query example_libs example_index rag_init [113] 2)
   = Inr \<lparr>answer =
            [9888, 65039]
            @ ascii '' OpenAI API key not found. Here are the retrieved snippets:\<newline>\<newline>---\<newline>Title: A\<newline>URL: a\<newline>Excerpt: x\<newline>Similarity: 0.0000\<newline>\<newline>---\<newline>Title: B\<newline>URL: b\<newline>Excerpt: y\<newline>Similarity: -1.0000'',
          citations = [\<lparr>cite_title = [65], cite_url = [97], cite_similarity = 0\<rparr>,
                       \<lparr>cite_title = [66], cite_url = [98], cite_similarity = - 1\<rparr>],
          confidence = - (1 / 2)\<rparr>"
proof -
  have "openai_client example_libs = None"
    by (simp add: example_libs_def)
  from answer_query_fallback [OF this, of example_index rag_init "[113]" 2]
  show ?thesis
    apply (simp add: Let_def retrieve_example)
    apply (simp add: example_metas_def example_libs_def ascii_def)
    done
qed

text \<open>
  The same index with \<open>top_k = 4\<close>, the value that \<open>ask\<close> passes: still without a
  client, \<open>answer_query\<close> raises.
\<close>

theorem answer_query_fallback_counterexample:
  "openai_client example_libs = None
   \<and> snd (answer_query example_libs example_index rag_init [113] 4) = Inl ValueError"
proof -
  have "snd (retrieve example_libs example_index rag_init [113] 4) = Inl ValueError"
    by (simp add: retrieve_serves [OF example_serves] kneighbors_fitted)
  from answer_query_raises [OF this] show ?thesis
    by (simp add: example_libs_def)
qed

theorem confidence_range_counterexample:
  "\<exists>a. snd (answer_query example_libs example_index rag_init [113] 2) = Inr a
       \<and> confidence a = - (1 / 2)
       \<and> \<not> (0 \<le> confidence a \<and> confidence a \<le> 1)"
  by (simp add: answer_example)

theorem answer_query_confidence_witness:
  "\<exists>a. snd (answer_query example_libs example_index rag_init [113] 2) = Inr a
       \<and> confidence a = mean [0, - 1] \<and> - 1 \<le> confidence a \<and> confidence a \<le> 1"
proof -
  have range: "\<forall>row \<in> set [[0, 1], [- 1, 0]].
                 0 \<le> cosine example_libs (encode example_libs [113]) row
                 \<and> cosine example_libs (encode example_libs [113]) row \<le> 2"
    by (simp add: example_libs_def example_distances)
  from answer_query_confidence [OF example_serves answer_example range]
  show ?thesis
    by (simp add: answer_example retrieve_example)
qed

theorem answer_results_guarded_witness:
  "answer_results example_libs [113] []
     = Inr \<lparr>answer = WARNING_PREFIX, citations = [], confidence = 0\<rparr>
   \<and> answer_results (example_libs\<lparr>openai_client := Some (\<lambda>s p. Inl (ApiError []))\<rparr>) [113] []
     = Inl (ApiError [])
   \<and> snd (answer_query example_libs example_index rag_init [113] 2)
     = answer_results example_libs [113]
         [\<lparr>meta = example_metas ! 0, similarity = 0\<rparr>, \<lparr>meta = example_metas ! 1, similarity = - 1\<rparr>]"
proof -
  have "openai_client example_libs = None"
    by (simp add: example_libs_def)
  moreover have "answer_results (example_libs\<lparr>openai_client := Some (\<lambda>s p. Inl (ApiError []))\<rparr>)
                   [113] [] = Inl (ApiError [])"
    by (simp add: answer_results_client [of _ "\<lambda>s p. Inl (ApiError [])"])
  ultimately show ?thesis
    using answer_results_guarded [of example_libs "[113]"] retrieve_example [of "[113]"]
    by simp
qed

theorem ask_empty_question_witness:
  "ask example_libs example_index \<lparr>rag_state = rag_init, answer_calls = []\<rparr>
     (Some (JString [32, 9, 10]))
   = (\<lparr>rag_state = rag_init, answer_calls = []\<rparr>, Inr (ErrorBody (ascii ''empty question''), 400))"
proof -
  have "\<forall>c \<in> set [32, 9, 10]. isspace c"
    by (simp add: isspace_def)
  then have "Some (JString [32, 9, 10]) = None
             \<or> (\<exists>s. Some (JString [32, 9, 10]) = Some (JString s) \<and> (\<forall>c \<in> set s. isspace c))"
    by simp
  from ask_empty_question
         [OF this, of example_libs example_index "\<lparr>rag_state = rag_init, answer_calls = []\<rparr>"]
  show ?thesis
    by simp
qed

end
